theory Spec2Isabelle
  imports Main
begin

section \<open>JavaScript values and built-ins the code relies on\<close>

text \<open>
  Exceptions are values. \<open>Error m\<close> is \<^verbatim>\<open>new Error(m)\<close>; \<open>TypeError\<close> is what
  reading a property of \<^verbatim>\<open>undefined\<close> raises; \<open>RangeError\<close> is what
  \<^verbatim>\<open>Date.prototype.toISOString\<close> raises on an invalid time value.
\<close>

datatype error = Error string | TypeError | RangeError

text \<open>Decimal rendering of a non-negative integer, as a template literal renders a number.\<close>

definition digitChar :: "nat \<Rightarrow> char" where
  "digitChar d = ''0123456789'' ! d"

fun numberToString :: "nat \<Rightarrow> string" where
  "numberToString n =
     (if n < 10 then [digitChar n]
      else numberToString (n div 10) @ [digitChar (n mod 10)])"

declare numberToString.simps [simp del]

text \<open>\<^verbatim>\<open>String.prototype.padStart(w, "0")\<close> on a rendered number.\<close>

definition padStart :: "nat \<Rightarrow> string \<Rightarrow> string" where
  "padStart w s = replicate (w - length s) (CHR ''0'') @ s"

text \<open>
  \<^verbatim>\<open>new Date(t).toISOString()\<close> for an integer time value \<open>t\<close> (milliseconds since
  the epoch), after ECMA-262: a time value beyond 8.64e15 ms in magnitude is an invalid
  date and raises RangeError; otherwise the proleptic Gregorian date in UTC is printed as
  \<^verbatim>\<open>YYYY-MM-DDTHH:mm:ss.sssZ\<close>, the year with a sign and six digits outside 0..9999.
  \<open>div\<close> and \<open>mod\<close> on \<open>int\<close> round towards minus infinity, as the standard's
  \<^verbatim>\<open>floor\<close> and \<^verbatim>\<open>modulo\<close> do.
\<close>

definition msPerDay :: int where
  "msPerDay = 86400000"

text \<open>Year, month and day of the day number \<open>z\<close> (days since 1970-01-01).\<close>

definition civilFromDays :: "int \<Rightarrow> int \<times> nat \<times> nat" where
  "civilFromDays z =
     (let z' = z + 719468;
          era = z' div 146097;
          doe = z' mod 146097;
          yoe = (doe - doe div 1460 + doe div 36524 - doe div 146096) div 365;
          doy = doe - (365 * yoe + yoe div 4 - yoe div 100);
          mp = (5 * doy + 2) div 153;
          d = doy - (153 * mp + 2) div 5 + 1;
          m = (if mp < 10 then mp + 3 else mp - 9);
          y = yoe + era * 400 + (if m \<le> 2 then 1 else 0)
      in (y, nat m, nat d))"

definition yearToString :: "int \<Rightarrow> string" where
  "yearToString y =
     (if 0 \<le> y \<and> y \<le> 9999 then padStart 4 (numberToString (nat y))
      else (if y < 0 then ''-'' else ''+'') @ padStart 6 (numberToString (nat \<bar>y\<bar>)))"

definition toISOString :: "int \<Rightarrow> error + string" where
  "toISOString t =
     (if \<bar>t\<bar> > 8640000000000000 then Inl RangeError
      else
        (let (y, m, d) = civilFromDays (t div msPerDay);
             ms = nat (t mod msPerDay)
         in Inr (yearToString y @ ''-'' @ padStart 2 (numberToString m) @ ''-''
                 @ padStart 2 (numberToString d) @ ''T''
                 @ padStart 2 (numberToString (ms div 3600000)) @ '':''
                 @ padStart 2 (numberToString (ms div 60000 mod 60)) @ '':''
                 @ padStart 2 (numberToString (ms div 1000 mod 60)) @ ''.''
                 @ padStart 3 (numberToString (ms mod 1000)) @ ''Z'')))"

text \<open>\<^verbatim>\<open>new Date(undefined)\<close> is an invalid date.\<close>

definition dateToISOString :: "int option \<Rightarrow> error + string" where
  "dateToISOString v = (case v of None \<Rightarrow> Inl RangeError | Some t \<Rightarrow> toISOString t)"


section \<open>Data model\<close>

text \<open>
  The platform's records (\<^verbatim>\<open>dsl/GitlabDSL\<close>) and the canonical ones
  (\<^verbatim>\<open>dsl/GitDSL\<close>, \<^verbatim>\<open>dsl/Commit\<close>), with the fields the code reads and writes.
  The fields of a platform record carry a short prefix of the record, since the
  platform and the canonical records share names (\<open>author\<close>, \<open>name\<close>, \<open>type\<close>,
  \<open>source\<close>). An optional or nullable field is an \<open>option\<close>; \<open>None\<close> is the
  absent value. Timestamps and line numbers are integers.
\<close>

record RepoMetaData =
  repoSlug :: string
  pullRequestID :: string

record GitlabUser =
  u_name :: string
  u_emailAddress :: string

record GitlabParent =
  p_id :: string

record GitlabCommit =
  c_id :: string
  c_parents :: "GitlabParent list"
  c_author :: GitlabUser
  c_authorTimestamp :: int
  c_committer :: "GitlabUser option"
  c_committerTimestamp :: "int option"
  c_message :: string

record GitCommitAuthor =
  email :: string
  name :: string
  date :: string

record GitCommit =
  sha :: string
  parents :: "string list"
  author :: GitCommitAuthor
  committer :: GitCommitAuthor
  message :: string
  tree :: "string option"
  url :: string

text \<open>A platform path object; the code reads its \<^verbatim>\<open>toString\<close> field.\<close>

record GitlabPath =
  toString :: string

record GitlabChangesValue =
  v_type :: string
  v_path :: GitlabPath
  v_srcPath :: "GitlabPath option"

record GitJSONDSL =
  modified_files :: "string list"
  created_files :: "string list"
  deleted_files :: "string list"
  commits :: "GitCommit list"


section \<open>Commit normalizer\<close>

definition bitBucketServerCommitToGitCommit ::
  "GitlabCommit \<Rightarrow> RepoMetaData \<Rightarrow> string \<Rightarrow> error + GitCommit" where
  "bitBucketServerCommitToGitCommit bbsCommit repoMetadata host =
     (let url = host @ ''/'' @ repoSlug repoMetadata @ ''/commits/'' @ c_id bbsCommit
      in case toISOString (c_authorTimestamp bbsCommit) of
           Inl e \<Rightarrow> Inl e
         | Inr authorDate \<Rightarrow>
            (case (case c_committer bbsCommit of
                     Some cm \<Rightarrow>
                       (case dateToISOString (c_committerTimestamp bbsCommit) of
                          Inl e \<Rightarrow> Inl e
                        | Inr committerDate \<Rightarrow>
                            Inr \<lparr>email = u_emailAddress cm, name = u_name cm,
                                 date = committerDate\<rparr>)
                   | None \<Rightarrow>
                       (case toISOString (c_authorTimestamp bbsCommit) of
                          Inl e \<Rightarrow> Inl e
                        | Inr d \<Rightarrow>
                            Inr \<lparr>email = u_emailAddress (c_author bbsCommit),
                                 name = u_name (c_author bbsCommit), date = d\<rparr>)) of
               Inl e \<Rightarrow> Inl e
             | Inr cmt \<Rightarrow>
                 Inr \<lparr>sha = c_id bbsCommit,
                      parents = map p_id (c_parents bbsCommit),
                      author = \<lparr>email = u_emailAddress (c_author bbsCommit),
                                name = u_name (c_author bbsCommit),
                                date = authorDate\<rparr>,
                      committer = cmt,
                      message = c_message bbsCommit,
                      tree = None,
                      url = url\<rparr>))"


section \<open>Change-list normalizer\<close>

text \<open>
  The callback of \<^verbatim>\<open>changes.reduce\<close>: the \<^verbatim>\<open>switch\<close> on \<^verbatim>\<open>value.type\<close>. Reading
  \<^verbatim>\<open>value.srcPath.toString\<close> of a record without \<^verbatim>\<open>srcPath\<close> raises TypeError.
\<close>

definition changesStep :: "GitJSONDSL \<Rightarrow> GitlabChangesValue \<Rightarrow> error + GitJSONDSL" where
  "changesStep git v =
     (if v_type v = ''ADD'' then
        Inr (git\<lparr>created_files := created_files git @ [toString (v_path v)]\<rparr>)
      else if v_type v = ''MODIFY'' then
        Inr (git\<lparr>modified_files := modified_files git @ [toString (v_path v)]\<rparr>)
      else if v_type v = ''MOVE'' then
        (case v_srcPath v of
           None \<Rightarrow> Inl TypeError
         | Some src \<Rightarrow>
             Inr (git\<lparr>created_files := created_files git @ [toString (v_path v)],
                      deleted_files := deleted_files git @ [toString src]\<rparr>))
      else if v_type v = ''DELETE'' then
        Inr (git\<lparr>deleted_files := deleted_files git @ [toString (v_path v)]\<rparr>)
      else Inl (Error ''Unhandled change type''))"

text \<open>
  \<^verbatim>\<open>Array.prototype.reduce\<close> with a callback that may throw: left to right from the
  initial accumulator; an exception leaves the loop at once.
\<close>

fun reduceE :: "('b \<Rightarrow> 'a \<Rightarrow> error + 'b) \<Rightarrow> 'b \<Rightarrow> 'a list \<Rightarrow> error + 'b" where
  "reduceE f acc [] = Inr acc"
| "reduceE f acc (x # xs) =
     (case f acc x of Inl e \<Rightarrow> Inl e | Inr acc' \<Rightarrow> reduceE f acc' xs)"

definition bitBucketServerChangesToGitJSONDSL ::
  "GitlabChangesValue list \<Rightarrow> GitCommit list \<Rightarrow> error + GitJSONDSL" where
  "bitBucketServerChangesToGitJSONDSL changes cs =
     reduceE changesStep
       \<lparr>modified_files = [], created_files = [], deleted_files = [], commits = cs\<rparr>
       changes"


section \<open>Structured-diff normalizer\<close>

record GitlabLine =
  l_line :: string
  l_source :: "int option"
  l_destination :: "int option"

record GitlabSegment =
  s_type :: string
  s_lines :: "GitlabLine list"

record GitlabHunk =
  h_segments :: "GitlabSegment list"

record GitlabDiff =
  d_source :: "GitlabPath option"
  d_destination :: "GitlabPath option"
  d_hunks :: "GitlabHunk list option"

text \<open>
  What reading a property of the object literal \<^verbatim>\<open>segmentValues\<close> gives: the string
  stored under an own key, the member of \<^verbatim>\<open>Object.prototype\<close> for one of its names,
  and \<^verbatim>\<open>undefined\<close> for every other name.
\<close>

datatype property = Str string | Inherited string | Undefined

definition segmentValues :: "(string \<times> string) list" where
  "segmentValues = [(''ADDED'', ''add''), (''CONTEXT'', ''normal''), (''REMOVED'', ''del'')]"

definition objectPrototypeMembers :: "string list" where
  "objectPrototypeMembers =
     [''constructor'', ''hasOwnProperty'', ''isPrototypeOf'', ''propertyIsEnumerable'',
      ''toLocaleString'', ''toString'', ''valueOf'', ''__proto__'', ''__defineGetter__'',
      ''__defineSetter__'', ''__lookupGetter__'', ''__lookupSetter__'']"

definition getProperty :: "(string \<times> string) list \<Rightarrow> string \<Rightarrow> property" where
  "getProperty obj key =
     (case map_of obj key of
        Some s \<Rightarrow> Str s
      | None \<Rightarrow> if key \<in> set objectPrototypeMembers then Inherited key else Undefined)"

record GitStructuredDiffChange =
  ch_type :: property
  ch_content :: string
  ch_sourceLine :: "int option"
  ch_destinationLine :: "int option"

record GitStructuredDiffChunk =
  ck_changes :: "GitStructuredDiffChange list"

record GitStructuredDiffEntry =
  sd_from :: "string option"
  sd_to :: "string option"
  sd_chunks :: "GitStructuredDiffChunk list option"

text \<open>
  \<^verbatim>\<open>a && b\<close> on an optional \<open>a\<close> is \<open>a\<close> itself when \<open>a\<close> is absent and \<open>b\<close>
  otherwise; \<^verbatim>\<open>.reduce((a, b) => a.concat(b), [])\<close> is a left fold of append.
\<close>

definition bitBucketServerDiffToGitStructuredDiff ::
  "GitlabDiff list \<Rightarrow> GitStructuredDiffEntry list" where
  "bitBucketServerDiffToGitStructuredDiff diffs =
     map (\<lambda>diff.
       \<lparr>sd_from = (case d_source diff of None \<Rightarrow> None | Some p \<Rightarrow> Some (toString p)),
        sd_to = (case d_destination diff of None \<Rightarrow> None | Some p \<Rightarrow> Some (toString p)),
        sd_chunks =
          (case d_hunks diff of
             None \<Rightarrow> None
           | Some hunks \<Rightarrow>
               Some (map (\<lambda>hunk.
                 \<lparr>ck_changes =
                    foldl (\<lambda>a b. a @ b) []
                      (map (\<lambda>segment.
                         map (\<lambda>line.
                           \<lparr>ch_type = getProperty segmentValues (s_type segment),
                            ch_content = l_line line,
                            ch_sourceLine = l_source line,
                            ch_destinationLine = l_destination line\<rparr>)
                           (s_lines segment))
                         (h_segments hunk))\<rparr>) hunks))\<rparr>) diffs"


section \<open>Platform API client\<close>

text \<open>
  A response of the transport, with the body as the code deserialises it
  (\<^verbatim>\<open>res.json() as T\<close>, \<^verbatim>\<open>res.text()\<close>). \<^verbatim>\<open>res.ok\<close> is node-fetch's getter.
\<close>

record 'b Response =
  status :: nat
  statusText :: string
  body :: 'b

definition ok :: "'b Response \<Rightarrow> bool" where
  "ok res = (200 \<le> status res \<and> status res < 300)"

record GitlabRepoCredentials =
  host :: string

record GitlabChanges =
  cg_values :: "GitlabChangesValue list"
  cg_nextPageStart :: "nat option"

text \<open>
  The client instance and its environment: \<open>pr\<close> is the private field of the class;
  \<open>net\<close> is the state of the network behind \<^verbatim>\<open>this.fetch\<close> and \<open>requests\<close> the
  URLs requested so far, in order. The transport \<open>fetch\<close> answers a URL in a network
  state with a response and the next network state.
\<close>

record ('pr, 'w) GitlabAPI =
  repoMetadata :: RepoMetaData
  repoCredentials :: GitlabRepoCredentials
  pr :: "'pr option"
  net :: 'w
  requests :: "string list"

type_synonym ('w, 'b) transport = "'w \<Rightarrow> string \<Rightarrow> 'b Response \<times> 'w"

definition throwIfNotOk :: "'b Response \<Rightarrow> error + unit" where
  "throwIfNotOk res =
     (if \<not> ok res then
        Inl (Error (numberToString (status res) @ '' - '' @ statusText res @
          (if status res \<ge> 400 \<and> status res < 500
           then '' (Have you set DANGER_GITLAB_USERNAME and DANGER_GITLAB_PASSWORD or DANGER_GITLAB_TOKEN?)''
           else [])))
      else Inr ())"

definition getPRBasePath :: "('pr, 'w) GitlabAPI \<Rightarrow> string" where
  "getPRBasePath api =
     ''/projects/'' @ repoSlug (repoMetadata api) @ ''/merge_requests/''
       @ pullRequestID (repoMetadata api)"

text \<open>\<^verbatim>\<open>this.get(path)\<close>: one request for \<^verbatim>\<open>${host}/${path}\<close>.\<close>

definition get ::
  "('w, 'b) transport \<Rightarrow> ('pr, 'w) GitlabAPI \<Rightarrow> string \<Rightarrow> 'b Response \<times> ('pr, 'w) GitlabAPI" where
  "get fetch api path =
     (let url = host (repoCredentials api) @ ''/'' @ path
      in case fetch (net api) url of
           (res, w) \<Rightarrow> (res, api\<lparr>net := w, requests := requests api @ [url]\<rparr>))"

text \<open>
  The cache test \<^verbatim>\<open>if (this.pr)\<close> is JavaScript truthiness: an unset field fails
  it, and so does a stored falsy value (\<^verbatim>\<open>null\<close>, \<^verbatim>\<open>false\<close>, \<^verbatim>\<open>0\<close>, the empty
  string). \<open>truthy\<close> is \<^verbatim>\<open>ToBoolean\<close> on the deserialized PR metadata; on an object,
  which \<^verbatim>\<open>GitlabPRDSL\<close> declares, it is true.
\<close>

definition getPullRequestInfo ::
  "('pr \<Rightarrow> bool) \<Rightarrow> ('w, 'pr) transport \<Rightarrow> ('pr, 'w) GitlabAPI
     \<Rightarrow> (error + 'pr) \<times> ('pr, 'w) GitlabAPI" where
  "getPullRequestInfo truthy fetch api =
     (case (case pr api of None \<Rightarrow> None | Some p \<Rightarrow> if truthy p then Some p else None) of
        Some p \<Rightarrow> (Inr p, api)
      | None \<Rightarrow>
          (case get fetch api (getPRBasePath api) of
             (res, api') \<Rightarrow>
               (case throwIfNotOk res of
                  Inl e \<Rightarrow> (Inl e, api')
                | Inr _ \<Rightarrow> (Inr (body res), api'\<lparr>pr := Some (body res)\<rparr>))))"

text \<open>
  The \<^verbatim>\<open>do ... while (nextPageStart !== null)\<close> loop of getPullRequestChanges. It
  runs as long as the pages name a next page, so the result is an \<open>option\<close>:
  \<open>None\<close> is a loop that never returns.
\<close>

definition changesPath :: "('pr, 'w) GitlabAPI \<Rightarrow> nat \<Rightarrow> string" where
  "changesPath api nextPageStart =
     getPRBasePath api @ ''/changes?start='' @ numberToString nextPageStart"

partial_function (option) changesLoop ::
  "('w, GitlabChanges) transport \<Rightarrow> ('pr, 'w) GitlabAPI \<Rightarrow> nat \<Rightarrow> GitlabChangesValue list
     \<Rightarrow> ((error + GitlabChangesValue list) \<times> ('pr, 'w) GitlabAPI) option" where
  "changesLoop fetch api nextPageStart vals =
     (case get fetch api (changesPath api nextPageStart) of
        (res, api') \<Rightarrow>
          (case throwIfNotOk res of
             Inl e \<Rightarrow> Some (Inl e, api')
           | Inr _ \<Rightarrow>
               (case cg_nextPageStart (body res) of
                  None \<Rightarrow> Some (Inr (vals @ cg_values (body res)), api')
                | Some n \<Rightarrow> changesLoop fetch api' n (vals @ cg_values (body res)))))"

definition getPullRequestChanges ::
  "('w, GitlabChanges) transport \<Rightarrow> ('pr, 'w) GitlabAPI
     \<Rightarrow> ((error + GitlabChangesValue list) \<times> ('pr, 'w) GitlabAPI) option" where
  "getPullRequestChanges fetch api = changesLoop fetch api 0 []"

text \<open>An optional string argument in a template literal: absent prints as \<^verbatim>\<open>undefined\<close>.\<close>

definition templateArg :: "string option \<Rightarrow> string" where
  "templateArg a = (case a of None \<Rightarrow> ''undefined'' | Some s \<Rightarrow> s)"

definition getFileContents ::
  "('w, string) transport \<Rightarrow> ('pr, 'w) GitlabAPI \<Rightarrow> string \<Rightarrow> string option \<Rightarrow> string option
     \<Rightarrow> (error + string) \<times> ('pr, 'w) GitlabAPI" where
  "getFileContents fetch api filePath slug refspec =
     (let path = templateArg slug @ ''/'' @ ''raw/'' @ filePath @ ''?at='' @ templateArg refspec
      in case get fetch api path of
           (res, api') \<Rightarrow>
             if status res = 404 then (Inr [], api')
             else (case throwIfNotOk res of
                     Inl e \<Rightarrow> (Inl e, api')
                   | Inr _ \<Rightarrow> (Inr (body res), api')))"


section \<open>Notions used in the statements\<close>

text \<open>
  What a list of change records contributes to each output list, read off the four
  handled cases of the \<^verbatim>\<open>switch\<close>, and the records the \<^verbatim>\<open>switch\<close> handles without
  raising.
\<close>

definition createdOf :: "GitlabChangesValue list \<Rightarrow> string list" where
  "createdOf changes =
     map (\<lambda>v. toString (v_path v))
       (filter (\<lambda>v. v_type v = ''ADD'' \<or> v_type v = ''MOVE'') changes)"

definition modifiedOf :: "GitlabChangesValue list \<Rightarrow> string list" where
  "modifiedOf changes =
     map (\<lambda>v. toString (v_path v)) (filter (\<lambda>v. v_type v = ''MODIFY'') changes)"

definition deletedOf :: "GitlabChangesValue list \<Rightarrow> string list" where
  "deletedOf changes =
     concat (map (\<lambda>v.
       if v_type v = ''MOVE''
       then (case v_srcPath v of None \<Rightarrow> [] | Some s \<Rightarrow> [toString s])
       else if v_type v = ''DELETE'' then [toString (v_path v)] else []) changes)"

definition handled :: "GitlabChangesValue \<Rightarrow> bool" where
  "handled v =
     (v_type v \<in> {''ADD'', ''MODIFY'', ''MOVE'', ''DELETE''} \<and>
      (v_type v = ''MOVE'' \<longrightarrow> v_srcPath v \<noteq> None))"

text \<open>
  The flattened changes of a hunk in the words of the specification: the segments'
  lines one to one, segment after segment, tagged ADDED as add, CONTEXT as normal and
  REMOVED as del.
\<close>

definition specChanges :: "GitlabHunk \<Rightarrow> GitStructuredDiffChange list" where
  "specChanges hunk =
     concat (map (\<lambda>segment.
       map (\<lambda>line.
         \<lparr>ch_type = Str (if s_type segment = ''ADDED'' then ''add''
                          else if s_type segment = ''CONTEXT'' then ''normal'' else ''del''),
          ch_content = l_line line,
          ch_sourceLine = l_source line,
          ch_destinationLine = l_destination line\<rparr>) (s_lines segment)) (h_segments hunk))"

text \<open>The two inner callbacks of the structured-diff normalizer, named.\<close>

definition toChange :: "GitlabSegment \<Rightarrow> GitlabLine \<Rightarrow> GitStructuredDiffChange" where
  "toChange segment line =
     \<lparr>ch_type = getProperty segmentValues (s_type segment), ch_content = l_line line,
      ch_sourceLine = l_source line, ch_destinationLine = l_destination line\<rparr>"

definition toChunk :: "GitlabHunk \<Rightarrow> GitStructuredDiffChunk" where
  "toChunk hunk =
     \<lparr>ck_changes = concat (map (\<lambda>segment. map (toChange segment) (s_lines segment))
                             (h_segments hunk))\<rparr>"

text \<open>
  \<open>pagesServed fetch api cursor pages api'\<close>: from the client state \<open>api\<close>, the
  transport answers the loop's requests, the first for \<open>cursor\<close> and each later one for
  the previous page's \<open>nextPageStart\<close>, with the successful pages \<open>pages\<close> in this
  order; the last page, and only the last, has no \<open>nextPageStart\<close>; \<open>api'\<close> is the
  client state after the last request.
\<close>

fun pagesServed ::
  "('w, GitlabChanges) transport \<Rightarrow> ('pr, 'w) GitlabAPI \<Rightarrow> nat \<Rightarrow> GitlabChanges list
     \<Rightarrow> ('pr, 'w) GitlabAPI \<Rightarrow> bool" where
  "pagesServed fetch api cursor [] api' = False"
| "pagesServed fetch api cursor (p # ps) api' =
     (case get fetch api (changesPath api cursor) of
        (res, api1) \<Rightarrow>
          ok res \<and> body res = p \<and>
          (case cg_nextPageStart p of
             None \<Rightarrow> ps = [] \<and> api' = api1
           | Some n \<Rightarrow> pagesServed fetch api1 n ps api'))"

definition changesUrl :: "('pr, 'w) GitlabAPI \<Rightarrow> nat \<Rightarrow> string" where
  "changesUrl api cursor = host (repoCredentials api) @ ''/'' @ changesPath api cursor"

text \<open>\<open>n\<close> calls of getPullRequestInfo on one instance, one after the other.\<close>

fun repeatInfo ::
  "('pr \<Rightarrow> bool) \<Rightarrow> ('w, 'pr) transport \<Rightarrow> nat \<Rightarrow> ('pr, 'w) GitlabAPI
     \<Rightarrow> (error + 'pr) list \<times> ('pr, 'w) GitlabAPI" where
  "repeatInfo truthy fetch 0 api = ([], api)"
| "repeatInfo truthy fetch (Suc n) api =
     (case getPullRequestInfo truthy fetch api of
        (r, api1) \<Rightarrow>
          (case repeatInfo truthy fetch n api1 of (rs, api2) \<Rightarrow> (r # rs, api2)))"


section \<open>Example inputs\<close>

definition exChange :: "string \<Rightarrow> string \<Rightarrow> GitlabChangesValue" where
  "exChange t p = \<lparr>v_type = t, v_path = \<lparr>toString = p\<rparr>, v_srcPath = None\<rparr>"

definition exMove :: GitlabChangesValue where
  "exMove = \<lparr>v_type = ''MOVE'', v_path = \<lparr>toString = ''new.ts''\<rparr>,
             v_srcPath = Some \<lparr>toString = ''old.ts''\<rparr>\<rparr>"

definition exCommit :: GitlabCommit where
  "exCommit = \<lparr>c_id = ''abc123'', c_parents = [\<lparr>p_id = ''def456''\<rparr>],
               c_author = \<lparr>u_name = ''Ada'', u_emailAddress = ''ada@example.com''\<rparr>,
               c_authorTimestamp = 1700000000000, c_committer = None,
               c_committerTimestamp = None, c_message = ''fix''\<rparr>"

definition exDiff :: "string \<Rightarrow> string \<Rightarrow> GitlabDiff" where
  "exDiff t1 t2 =
     \<lparr>d_source = Some \<lparr>toString = ''a.ts''\<rparr>, d_destination = Some \<lparr>toString = ''a.ts''\<rparr>,
      d_hunks = Some [\<lparr>h_segments =
        [\<lparr>s_type = t1, s_lines = [\<lparr>l_line = ''x'', l_source = None, l_destination = Some 5\<rparr>]\<rparr>,
         \<lparr>s_type = t2, s_lines = [\<lparr>l_line = ''y'', l_source = Some 3, l_destination = None\<rparr>]\<rparr>]\<rparr>]\<rparr>"

definition exAddedFile :: GitlabDiff where
  "exAddedFile = \<lparr>d_source = None, d_destination = None, d_hunks = None\<rparr>"

definition exApi :: "(string, unit) GitlabAPI" where
  "exApi = \<lparr>repoMetadata = \<lparr>repoSlug = ''g/r'', pullRequestID = ''7''\<rparr>,
            repoCredentials = \<lparr>host = ''https://h''\<rparr>,
            pr = None, net = (), requests = []\<rparr>"

definition exPages :: "GitlabChanges list" where
  "exPages =
     [\<lparr>cg_values = [exChange ''ADD'' ''a'', exChange ''ADD'' ''b''], cg_nextPageStart = Some 1\<rparr>,
      \<lparr>cg_values = [exChange ''ADD'' ''c''], cg_nextPageStart = None\<rparr>]"

definition exChangesFetch :: "(unit, GitlabChanges) transport" where
  "exChangesFetch w u =
     (if u = ''https://h//projects/g/r/merge_requests/7/changes?start=0''
      then \<lparr>status = 200, statusText = ''OK'', body = exPages ! 0\<rparr>
      else if u = ''https://h//projects/g/r/merge_requests/7/changes?start=1''
      then \<lparr>status = 200, statusText = ''OK'', body = exPages ! 1\<rparr>
      else \<lparr>status = 404, statusText = ''Not Found'',
            body = \<lparr>cg_values = [], cg_nextPageStart = None\<rparr>\<rparr>, w)"

definition exEndlessFetch :: "(unit, GitlabChanges) transport" where
  "exEndlessFetch w u =
     (\<lparr>status = 200, statusText = ''OK'',
       body = \<lparr>cg_values = [exChange ''ADD'' ''a''], cg_nextPageStart = Some 0\<rparr>\<rparr>, w)"

definition exInfoFetch :: "(unit, string) transport" where
  "exInfoFetch w u = (\<lparr>status = 200, statusText = ''OK'', body = ''merge request 7''\<rparr>, w)"

text \<open>\<^verbatim>\<open>ToBoolean\<close> on a string: every string but the empty one is truthy.\<close>

definition truthyString :: "string \<Rightarrow> bool" where
  "truthyString s = (s \<noteq> [])"

definition exEmptyFetch :: "(unit, string) transport" where
  "exEmptyFetch w u = (\<lparr>status = 200, statusText = ''OK'', body = []\<rparr>, w)"

definition exFailingFetch :: "(unit, string) transport" where
  "exFailingFetch w u =
     (\<lparr>status = 500, statusText = ''Internal Server Error'', body = []\<rparr>, w)"

definition exFileFetch :: "(unit, string) transport" where
  "exFileFetch w u =
     (if u = ''https://h/g/r/raw/README.md?at=main''
      then \<lparr>status = 200, statusText = ''OK'', body = ''# readme''\<rparr>
      else if u = ''https://h/g/r/raw/secret.md?at=main''
      then \<lparr>status = 403, statusText = ''Forbidden'', body = ''denied''\<rparr>
      else \<lparr>status = 404, statusText = ''Not Found'', body = ''no such file''\<rparr>, w)"


section \<open>The built-ins on the example values\<close>

lemma numberToString_examples:
  "numberToString 0 = ''0''" "numberToString 1 = ''1''" "numberToString (Suc 0) = ''1''"
  "numberToString 11 = ''11''" "numberToString 13 = ''13''" "numberToString 14 = ''14''"
  "numberToString 20 = ''20''" "numberToString 22 = ''22''"
  "numberToString 403 = ''403''" "numberToString 500 = ''500''"
  "numberToString 2023 = ''2023''"
  by (simp_all add: numberToString.simps digitChar_def)

lemma padStart_examples:
  "padStart 4 ''2023'' = ''2023''" "padStart 2 ''11'' = ''11''" "padStart 2 ''14'' = ''14''"
  "padStart 2 ''22'' = ''22''" "padStart 2 ''13'' = ''13''" "padStart 2 ''20'' = ''20''"
  "padStart 3 ''0'' = ''000''"
  by (simp_all add: padStart_def numeral_eq_Suc)

lemma civilFromDays_example: "civilFromDays 19675 = (2023, 11, 14)"
  unfolding civilFromDays_def Let_def by simp

lemma toISOString_example: "toISOString 1700000000000 = Inr ''2023-11-14T22:13:20.000Z''"
proof -
  have d: "(1700000000000::int) div msPerDay = 19675"
    and m: "(1700000000000::int) mod msPerDay = 80000000"
    by (simp_all add: msPerDay_def)
  have y: "yearToString 2023 = ''2023''"
    by (simp add: yearToString_def numberToString_examples padStart_examples)
  show ?thesis
    unfolding toISOString_def d m civilFromDays_example
    by (simp add: y numberToString_examples padStart_examples)
qed

lemma toISOString_valid:
  "\<bar>t\<bar> \<le> 8640000000000000 \<Longrightarrow> \<exists>d. toISOString t = Inr d"
  by (simp add: toISOString_def Let_def split: prod.splits)


section \<open>Commit normalizer: the committer fallback\<close>

text \<open>
  Claim C6. For every platform commit record with no committer field, the commit
  normalizer produces a canonical commit (the fallback is not an error) whose committer
  equals its author (same name, email and date), and both dates are the ISO-8601 string
  of the record's epoch-millisecond author timestamp. The timestamp is one JavaScript
  has a date for, at most 8.64e15 ms from the epoch in either direction (some 275000
  years); beyond it \<^verbatim>\<open>toISOString\<close> has no string to give.
\<close>

theorem committer_falls_back_to_author:
  assumes "c_committer c = None" and "\<bar>c_authorTimestamp c\<bar> \<le> 8640000000000000"
  shows "\<exists>gc d. bitBucketServerCommitToGitCommit c meta h = Inr gc
           \<and> toISOString (c_authorTimestamp c) = Inr d
           \<and> author gc = \<lparr>email = u_emailAddress (c_author c), name = u_name (c_author c),
                           date = d\<rparr>
           \<and> committer gc = author gc"
proof -
  from toISOString_valid[OF assms(2)]
  obtain d where d: "toISOString (c_authorTimestamp c) = Inr d"
    by blast
  then show ?thesis
    using assms(1) by (simp add: bitBucketServerCommitToGitCommit_def Let_def)
qed

text \<open>
  The specification's example: epoch milliseconds 1700000000000 and no committer.
\<close>

theorem committer_falls_back_to_author_witness:
  "bitBucketServerCommitToGitCommit exCommit \<lparr>repoSlug = ''g/r'', pullRequestID = ''7''\<rparr>
       ''https://h'' =
     Inr \<lparr>sha = ''abc123'', parents = [''def456''],
          author = \<lparr>email = ''ada@example.com'', name = ''Ada'',
                    date = ''2023-11-14T22:13:20.000Z''\<rparr>,
          committer = \<lparr>email = ''ada@example.com'', name = ''Ada'',
                       date = ''2023-11-14T22:13:20.000Z''\<rparr>,
          message = ''fix'', tree = None, url = ''https://h/g/r/commits/abc123''\<rparr>"
proof -
  let ?meta = "\<lparr>repoSlug = ''g/r'', pullRequestID = ''7''\<rparr>"
  have c: "c_committer exCommit = None"
    and t: "\<bar>c_authorTimestamp exCommit\<bar> \<le> 8640000000000000"
    by (simp_all add: exCommit_def)
  from committer_falls_back_to_author[OF c t, of ?meta "''https://h''"]
  obtain gc d
    where r: "bitBucketServerCommitToGitCommit exCommit ?meta ''https://h'' = Inr gc"
      and d: "toISOString (c_authorTimestamp exCommit) = Inr d"
      and a: "author gc = \<lparr>email = u_emailAddress (c_author exCommit),
                            name = u_name (c_author exCommit), date = d\<rparr>"
      and cm: "committer gc = author gc"
    by blast
  have d': "d = ''2023-11-14T22:13:20.000Z''"
    using d toISOString_example by (simp add: exCommit_def)
  have rest: "sha gc = ''abc123'' \<and> parents gc = [''def456''] \<and> message gc = ''fix''
      \<and> tree gc = None \<and> url gc = ''https://h/g/r/commits/abc123''"
    using r d
    by (auto simp: bitBucketServerCommitToGitCommit_def Let_def exCommit_def
        split: sum.splits)
  have "gc = \<lparr>sha = ''abc123'', parents = [''def456''],
          author = \<lparr>email = ''ada@example.com'', name = ''Ada'',
                    date = ''2023-11-14T22:13:20.000Z''\<rparr>,
          committer = \<lparr>email = ''ada@example.com'', name = ''Ada'',
                       date = ''2023-11-14T22:13:20.000Z''\<rparr>,
          message = ''fix'', tree = None, url = ''https://h/g/r/commits/abc123''\<rparr>"
    using a cm d' rest by (cases gc) (simp add: exCommit_def)
  with r show ?thesis by simp
qed


section \<open>Change-list normalizer: the fold\<close>

lemma reduceE_append:
  "reduceE f acc (xs @ ys) =
     (case reduceE f acc xs of Inl e \<Rightarrow> Inl e | Inr acc' \<Rightarrow> reduceE f acc' ys)"
  by (induction xs arbitrary: acc) (auto split: sum.splits)

lemma changesStep_handled:
  assumes "handled v"
  shows "changesStep git v =
     Inr (git\<lparr>modified_files := modified_files git @ modifiedOf [v],
              created_files := created_files git @ createdOf [v],
              deleted_files := deleted_files git @ deletedOf [v]\<rparr>)"
  using assms
  by (auto simp: handled_def changesStep_def modifiedOf_def createdOf_def deletedOf_def)

lemma changesStep_unknown:
  "v_type v \<notin> {''ADD'', ''MODIFY'', ''MOVE'', ''DELETE''} \<Longrightarrow>
   changesStep git v = Inl (Error ''Unhandled change type'')"
  by (simp add: changesStep_def)

lemma changesStep_Inr_handled: "changesStep git v = Inr g \<Longrightarrow> handled v"
  by (auto simp: changesStep_def handled_def split: if_splits option.splits)

lemma createdOf_append: "createdOf (xs @ ys) = createdOf xs @ createdOf ys"
  by (simp add: createdOf_def)

lemma modifiedOf_append: "modifiedOf (xs @ ys) = modifiedOf xs @ modifiedOf ys"
  by (simp add: modifiedOf_def)

lemma deletedOf_append: "deletedOf (xs @ ys) = deletedOf xs @ deletedOf ys"
  by (simp add: deletedOf_def)

lemma reduceE_handled:
  assumes "\<forall>v\<in>set changes. handled v"
  shows "reduceE changesStep git changes =
     Inr (git\<lparr>modified_files := modified_files git @ modifiedOf changes,
              created_files := created_files git @ createdOf changes,
              deleted_files := deleted_files git @ deletedOf changes\<rparr>)"
  using assms
proof (induction changes arbitrary: git)
  case Nil
  show ?case by (simp add: modifiedOf_def createdOf_def deletedOf_def)
next
  case (Cons v vs)
  have h: "handled v" and hs: "\<forall>v\<in>set vs. handled v"
    using Cons.prems by simp_all
  have "createdOf (v # vs) = createdOf [v] @ createdOf vs"
       "modifiedOf (v # vs) = modifiedOf [v] @ modifiedOf vs"
       "deletedOf (v # vs) = deletedOf [v] @ deletedOf vs"
    using createdOf_append[of "[v]" vs] modifiedOf_append[of "[v]" vs]
      deletedOf_append[of "[v]" vs]
    by simp_all
  then show ?case
    by (simp add: changesStep_handled[OF h] Cons.IH[OF hs])
qed

lemma reduceE_Inr_handled:
  "reduceE changesStep git changes = Inr g \<Longrightarrow> \<forall>v\<in>set changes. handled v"
  by (induction changes arbitrary: git) (auto split: sum.splits dest: changesStep_Inr_handled)

lemma normalize_handled:
  assumes "\<forall>v\<in>set changes. handled v"
  shows "bitBucketServerChangesToGitJSONDSL changes cs =
     Inr \<lparr>modified_files = modifiedOf changes, created_files = createdOf changes,
          deleted_files = deletedOf changes, commits = cs\<rparr>"
  by (simp add: bitBucketServerChangesToGitJSONDSL_def reduceE_handled[OF assms])

text \<open>Normalization succeeds exactly on the lists of handled records.\<close>

lemma normalize_succeeds_iff:
  "(\<exists>git. bitBucketServerChangesToGitJSONDSL changes cs = Inr git) =
   (\<forall>v\<in>set changes. handled v)"
  using normalize_handled[of changes cs] reduceE_Inr_handled[of _ changes]
  unfolding bitBucketServerChangesToGitJSONDSL_def by blast

lemma normalize_snoc:
  "bitBucketServerChangesToGitJSONDSL (changes @ [v]) cs =
     (case bitBucketServerChangesToGitJSONDSL changes cs of
        Inl e \<Rightarrow> Inl e | Inr git \<Rightarrow> changesStep git v)"
  by (simp add: bitBucketServerChangesToGitJSONDSL_def reduceE_append split: sum.splits)

lemma filter_three_length:
  assumes "\<forall>v\<in>set (xs :: GitlabChangesValue list).
             v_type v \<in> {''ADD'', ''MODIFY'', ''DELETE''}"
  shows "length (filter (\<lambda>v. v_type v = ''ADD'') xs)
       + length (filter (\<lambda>v. v_type v = ''MODIFY'') xs)
       + length (filter (\<lambda>v. v_type v = ''DELETE'') xs) = length xs"
  using assms by (induction xs) auto

text \<open>
  Claim C1. For every sequence of change records whose types are all ADD, MODIFY or
  DELETE, the normalizer returns a change set in which created_files holds the paths of
  the ADD records, modified_files those of the MODIFY records and deleted_files those of
  the DELETE records, each in arrival order; every record lands in exactly one list (the
  three counts add up to the number of records); and the fold runs left to right from the
  empty accumulator: the empty list gives the empty change set, and a list with one more
  record at its end gives the step on that record from the result of the list before it.
\<close>

theorem changes_add_modify_delete:
  assumes "\<forall>v\<in>set changes. v_type v \<in> {''ADD'', ''MODIFY'', ''DELETE''}"
  shows "bitBucketServerChangesToGitJSONDSL changes cs =
           Inr \<lparr>modified_files =
                  map (\<lambda>v. toString (v_path v)) (filter (\<lambda>v. v_type v = ''MODIFY'') changes),
                created_files =
                  map (\<lambda>v. toString (v_path v)) (filter (\<lambda>v. v_type v = ''ADD'') changes),
                deleted_files =
                  map (\<lambda>v. toString (v_path v)) (filter (\<lambda>v. v_type v = ''DELETE'') changes),
                commits = cs\<rparr>
         \<and> length (filter (\<lambda>v. v_type v = ''ADD'') changes)
           + length (filter (\<lambda>v. v_type v = ''MODIFY'') changes)
           + length (filter (\<lambda>v. v_type v = ''DELETE'') changes) = length changes
         \<and> bitBucketServerChangesToGitJSONDSL [] cs =
           Inr \<lparr>modified_files = [], created_files = [], deleted_files = [], commits = cs\<rparr>
         \<and> (\<forall>v. bitBucketServerChangesToGitJSONDSL (changes @ [v]) cs =
                (case bitBucketServerChangesToGitJSONDSL changes cs of
                   Inl e \<Rightarrow> Inl e | Inr git \<Rightarrow> changesStep git v))"
proof -
  have h: "\<forall>v\<in>set changes. handled v"
    using assms by (auto simp: handled_def)
  have c: "createdOf changes =
      map (\<lambda>v. toString (v_path v)) (filter (\<lambda>v. v_type v = ''ADD'') changes)"
    using assms by (induction changes) (auto simp: createdOf_def)
  have d: "deletedOf changes =
      map (\<lambda>v. toString (v_path v)) (filter (\<lambda>v. v_type v = ''DELETE'') changes)"
    using assms by (induction changes) (auto simp: deletedOf_def)
  have first: "bitBucketServerChangesToGitJSONDSL changes cs =
           Inr \<lparr>modified_files =
                  map (\<lambda>v. toString (v_path v)) (filter (\<lambda>v. v_type v = ''MODIFY'') changes),
                created_files =
                  map (\<lambda>v. toString (v_path v)) (filter (\<lambda>v. v_type v = ''ADD'') changes),
                deleted_files =
                  map (\<lambda>v. toString (v_path v)) (filter (\<lambda>v. v_type v = ''DELETE'') changes),
                commits = cs\<rparr>"
    using normalize_handled[OF h, of cs] c d by (simp add: modifiedOf_def)
  have emp: "bitBucketServerChangesToGitJSONDSL [] cs =
           Inr \<lparr>modified_files = [], created_files = [], deleted_files = [], commits = cs\<rparr>"
    by (simp add: bitBucketServerChangesToGitJSONDSL_def)
  show ?thesis
    using first filter_three_length[OF assms] emp normalize_snoc by blast
qed

theorem changes_add_modify_delete_witness:
  "bitBucketServerChangesToGitJSONDSL
     [exChange ''ADD'' ''a.ts'', exChange ''MODIFY'' ''b.ts'', exChange ''DELETE'' ''c.ts'',
      exChange ''ADD'' ''d.ts''] [] =
     Inr \<lparr>modified_files = [''b.ts''], created_files = [''a.ts'', ''d.ts''],
          deleted_files = [''c.ts''], commits = []\<rparr>"
  using changes_add_modify_delete
    [of "[exChange ''ADD'' ''a.ts'', exChange ''MODIFY'' ''b.ts'', exChange ''DELETE'' ''c.ts'',
          exChange ''ADD'' ''d.ts'']" "[]"]
  by (simp add: exChange_def)

text \<open>
  Claim C2. For every change-record sequence that contains a MOVE record with path P
  and srcPath Q, the normalized change set has P in created_files and Q in
  deleted_files, and the MOVE adds nothing to modified_files, which holds the paths of
  the MODIFY records and nothing else. The sequences are those the normalizer produces
  a change set for: every type is one of ADD, MODIFY, MOVE, DELETE and every MOVE record
  carries its srcPath (\<open>normalize_succeeds_iff\<close>).
\<close>

theorem move_is_delete_then_create:
  assumes "\<forall>v\<in>set changes. v_type v \<in> {''ADD'', ''MODIFY'', ''MOVE'', ''DELETE''} \<and>
             (v_type v = ''MOVE'' \<longrightarrow> v_srcPath v \<noteq> None)"
      and "m \<in> set changes" and "v_type m = ''MOVE''"
      and "v_path m = P" and "v_srcPath m = Some Q"
  shows "\<exists>git. bitBucketServerChangesToGitJSONDSL changes cs = Inr git
           \<and> toString P \<in> set (created_files git)
           \<and> toString Q \<in> set (deleted_files git)
           \<and> modified_files git =
               map (\<lambda>v. toString (v_path v)) (filter (\<lambda>v. v_type v = ''MODIFY'') changes)"
proof -
  have h: "\<forall>v\<in>set changes. handled v"
    using assms(1) by (simp add: handled_def)
  have "toString P \<in> set (createdOf changes)"
    using assms(2-4) by (force simp: createdOf_def)
  moreover have "toString Q \<in> set (deletedOf changes)"
    using assms(2,3,5) by (force simp: deletedOf_def)
  ultimately show ?thesis
    using normalize_handled[OF h, of cs] by (simp add: modifiedOf_def)
qed

theorem move_is_delete_then_create_witness:
  "bitBucketServerChangesToGitJSONDSL [exChange ''MODIFY'' ''m.ts'', exMove] [] =
     Inr \<lparr>modified_files = [''m.ts''], created_files = [''new.ts''],
          deleted_files = [''old.ts''], commits = []\<rparr>"
proof -
  let ?cs = "[exChange ''MODIFY'' ''m.ts'', exMove]"
  have "\<exists>git. bitBucketServerChangesToGitJSONDSL ?cs [] = Inr git
           \<and> toString \<lparr>toString = ''new.ts''\<rparr> \<in> set (created_files git)
           \<and> toString \<lparr>toString = ''old.ts''\<rparr> \<in> set (deleted_files git)
           \<and> modified_files git =
               map (\<lambda>v. toString (v_path v)) (filter (\<lambda>v. v_type v = ''MODIFY'') ?cs)"
    by (rule move_is_delete_then_create[where m = exMove])
      (simp_all add: exChange_def exMove_def)
  then show ?thesis
    by (simp add: bitBucketServerChangesToGitJSONDSL_def changesStep_def exChange_def
        exMove_def)
qed

text \<open>
  Claim C3. For every change-record sequence with at least one record whose type is
  outside ADD, MODIFY, MOVE, DELETE, normalization fails and returns no change set, not
  even a partial one. The failure is the "Unhandled change type" error, raised by the
  step on the first such record after the records before it were folded, whenever the
  MOVE records carry their srcPath (a MOVE record without one raises on reading
  \<^verbatim>\<open>srcPath.toString\<close>, before the switch reaches its default).
\<close>

theorem unknown_change_type_fails:
  assumes "\<exists>v\<in>set changes. v_type v \<notin> {''ADD'', ''MODIFY'', ''MOVE'', ''DELETE''}"
  shows "(\<exists>e. bitBucketServerChangesToGitJSONDSL changes cs = Inl e)
       \<and> ((\<forall>v\<in>set changes. v_type v = ''MOVE'' \<longrightarrow> v_srcPath v \<noteq> None) \<longrightarrow>
            bitBucketServerChangesToGitJSONDSL changes cs =
              Inl (Error ''Unhandled change type'')
          \<and> (\<exists>pre c post git.
                changes = pre @ c # post
              \<and> (\<forall>p\<in>set pre. v_type p \<in> {''ADD'', ''MODIFY'', ''MOVE'', ''DELETE''})
              \<and> v_type c \<notin> {''ADD'', ''MODIFY'', ''MOVE'', ''DELETE''}
              \<and> bitBucketServerChangesToGitJSONDSL pre cs = Inr git
              \<and> changesStep git c = Inl (Error ''Unhandled change type'')))"
proof (intro conjI impI)
  show "\<exists>e. bitBucketServerChangesToGitJSONDSL changes cs = Inl e"
  proof (cases "bitBucketServerChangesToGitJSONDSL changes cs")
    case (Inl e)
    then show ?thesis by blast
  next
    case (Inr g)
    then have "\<forall>v\<in>set changes. handled v"
      unfolding bitBucketServerChangesToGitJSONDSL_def by (rule reduceE_Inr_handled)
    with assms show ?thesis by (auto simp: handled_def)
  qed
next
  assume src: "\<forall>v\<in>set changes. v_type v = ''MOVE'' \<longrightarrow> v_srcPath v \<noteq> None"
  from split_list_first_prop[OF assms]
  obtain pre c post where dec: "changes = pre @ c # post"
    and c: "v_type c \<notin> {''ADD'', ''MODIFY'', ''MOVE'', ''DELETE''}"
    and pre: "\<forall>p\<in>set pre. \<not> v_type p \<notin> {''ADD'', ''MODIFY'', ''MOVE'', ''DELETE''}"
    by blast
  have h: "\<forall>p\<in>set pre. handled p"
    using pre src dec by (auto simp: handled_def)
  define git where "git = \<lparr>modified_files = modifiedOf pre, created_files = createdOf pre,
          deleted_files = deletedOf pre, commits = cs\<rparr>"
  have g: "bitBucketServerChangesToGitJSONDSL pre cs = Inr git"
    unfolding git_def by (rule normalize_handled[OF h])
  have s: "changesStep git c = Inl (Error ''Unhandled change type'')"
    by (rule changesStep_unknown[OF c])
  show "bitBucketServerChangesToGitJSONDSL changes cs = Inl (Error ''Unhandled change type'')"
    using g s unfolding dec bitBucketServerChangesToGitJSONDSL_def
    by (simp add: reduceE_append)
  have "\<forall>p\<in>set pre. v_type p \<in> {''ADD'', ''MODIFY'', ''MOVE'', ''DELETE''}"
    using pre by blast
  then show "\<exists>pre c post git.
                changes = pre @ c # post
              \<and> (\<forall>p\<in>set pre. v_type p \<in> {''ADD'', ''MODIFY'', ''MOVE'', ''DELETE''})
              \<and> v_type c \<notin> {''ADD'', ''MODIFY'', ''MOVE'', ''DELETE''}
              \<and> bitBucketServerChangesToGitJSONDSL pre cs = Inr git
              \<and> changesStep git c = Inl (Error ''Unhandled change type'')"
    using dec c g s by blast
qed

theorem unknown_change_type_fails_witness:
  "bitBucketServerChangesToGitJSONDSL
     [exChange ''ADD'' ''a.ts'', exChange ''RENAME'' ''b.ts'', exChange ''MODIFY'' ''c.ts''] [] =
     Inl (Error ''Unhandled change type'')"
  using unknown_change_type_fails
    [of "[exChange ''ADD'' ''a.ts'', exChange ''RENAME'' ''b.ts'', exChange ''MODIFY'' ''c.ts'']"
        "[]"]
  by (simp add: exChange_def)


section \<open>Structured-diff normalizer: flattening\<close>

lemma foldl_append_concat: "foldl (\<lambda>a b. a @ b) acc xss = acc @ concat xss"
  by (induction xss arbitrary: acc) simp_all

lemma structured_diff_unfold:
  "bitBucketServerDiffToGitStructuredDiff diffs =
     map (\<lambda>diff. \<lparr>sd_from = map_option toString (d_source diff),
                  sd_to = map_option toString (d_destination diff),
                  sd_chunks = map_option (map toChunk) (d_hunks diff)\<rparr>) diffs"
  unfolding bitBucketServerDiffToGitStructuredDiff_def toChunk_def toChange_def
    foldl_append_concat
  by (simp split: option.splits)

lemma getProperty_known:
  "getProperty segmentValues ''ADDED'' = Str ''add''"
  "getProperty segmentValues ''CONTEXT'' = Str ''normal''"
  "getProperty segmentValues ''REMOVED'' = Str ''del''"
  by (simp_all add: getProperty_def segmentValues_def)

lemma getProperty_unknown:
  "t \<notin> {''ADDED'', ''CONTEXT'', ''REMOVED''} \<Longrightarrow>
   getProperty segmentValues t =
     (if t \<in> set objectPrototypeMembers then Inherited t else Undefined)"
  by (simp add: getProperty_def segmentValues_def)

lemma toChunk_spec:
  assumes "\<forall>s\<in>set (h_segments h). s_type s \<in> {''ADDED'', ''CONTEXT'', ''REMOVED''}"
  shows "toChunk h = \<lparr>ck_changes = specChanges h\<rparr>"
proof -
  have "map (\<lambda>segment. map (toChange segment) (s_lines segment)) (h_segments h) =
        map (\<lambda>segment.
       map (\<lambda>line.
         \<lparr>ch_type = Str (if s_type segment = ''ADDED'' then ''add''
                          else if s_type segment = ''CONTEXT'' then ''normal'' else ''del''),
          ch_content = l_line line,
          ch_sourceLine = l_source line,
          ch_destinationLine = l_destination line\<rparr>) (s_lines segment)) (h_segments h)"
    using assms by (auto simp: toChange_def getProperty_known)
  then show ?thesis
    unfolding toChunk_def specChanges_def by (simp only:)
qed

text \<open>
  Claim C5. For every platform diff whose segments all have a type among ADDED, CONTEXT
  and REMOVED, the normalizer maps each segment's lines one to one into change entries,
  with type add for ADDED, normal for CONTEXT and del for REMOVED, the content from the
  line's text and sourceLine and destinationLine from the line's source and destination;
  the changes of a hunk are these entries, segment after segment in segment order, the
  lines of a segment in their order (\<open>specChanges\<close>).
\<close>

theorem structured_diff_flattens_segments:
  assumes "\<forall>d\<in>set diffs. \<forall>hs. d_hunks d = Some hs \<longrightarrow>
             (\<forall>h\<in>set hs. \<forall>s\<in>set (h_segments h).
                s_type s \<in> {''ADDED'', ''CONTEXT'', ''REMOVED''})"
  shows "bitBucketServerDiffToGitStructuredDiff diffs =
     map (\<lambda>diff. \<lparr>sd_from = map_option toString (d_source diff),
                  sd_to = map_option toString (d_destination diff),
                  sd_chunks = map_option (map (\<lambda>hunk. \<lparr>ck_changes = specChanges hunk\<rparr>))
                                (d_hunks diff)\<rparr>) diffs"
proof -
  have "map_option (map toChunk) (d_hunks d) =
        map_option (map (\<lambda>hunk. \<lparr>ck_changes = specChanges hunk\<rparr>)) (d_hunks d)"
    if "d \<in> set diffs" for d
  proof (cases "d_hunks d")
    case None
    then show ?thesis by simp
  next
    case (Some hs)
    with assms that
    have "\<forall>h\<in>set hs. \<forall>s\<in>set (h_segments h).
            s_type s \<in> {''ADDED'', ''CONTEXT'', ''REMOVED''}"
      by blast
    then have "map toChunk hs = map (\<lambda>hunk. \<lparr>ck_changes = specChanges hunk\<rparr>) hs"
      by (simp add: toChunk_spec)
    with Some show ?thesis by simp
  qed
  then show ?thesis
    unfolding structured_diff_unfold by simp
qed

text \<open>
  The specification's example: one hunk, an ADDED segment with the line x followed by a
  REMOVED segment with the line y.
\<close>

theorem structured_diff_flattens_segments_witness:
  "bitBucketServerDiffToGitStructuredDiff [exDiff ''ADDED'' ''REMOVED''] =
     [\<lparr>sd_from = Some ''a.ts'', sd_to = Some ''a.ts'',
       sd_chunks = Some [\<lparr>ck_changes =
         [\<lparr>ch_type = Str ''add'', ch_content = ''x'', ch_sourceLine = None,
           ch_destinationLine = Some 5\<rparr>,
          \<lparr>ch_type = Str ''del'', ch_content = ''y'', ch_sourceLine = Some 3,
           ch_destinationLine = None\<rparr>]\<rparr>]\<rparr>]"
  using structured_diff_flattens_segments[of "[exDiff ''ADDED'' ''REMOVED'']"]
  by (simp add: exDiff_def specChanges_def)

text \<open>
  Claim C7 says that a diff with a segment whose type is outside ADDED, CONTEXT and
  REMOVED makes the normalization fail with an UnknownSegmentType error instead of
  producing a change entry whose type is undefined. The code has no such check: on a
  diff whose second segment has the type MOVED it returns normally, and that segment's
  line is a change entry whose type is undefined.
\<close>

theorem unknown_segment_type_is_undefined:
  "bitBucketServerDiffToGitStructuredDiff [exDiff ''ADDED'' ''MOVED''] =
     [\<lparr>sd_from = Some ''a.ts'', sd_to = Some ''a.ts'',
       sd_chunks = Some [\<lparr>ck_changes =
         [\<lparr>ch_type = Str ''add'', ch_content = ''x'', ch_sourceLine = None,
           ch_destinationLine = Some 5\<rparr>,
          \<lparr>ch_type = Undefined, ch_content = ''y'', ch_sourceLine = Some 3,
           ch_destinationLine = None\<rparr>]\<rparr>]\<rparr>]"
  by (simp add: structured_diff_unfold exDiff_def toChunk_def toChange_def getProperty_def
      segmentValues_def objectPrototypeMembers_def)

text \<open>
  Claim C7 as the code has it. For every platform diff with a hunk segment whose type
  is outside ADDED, CONTEXT and REMOVED, the normalization raises nothing: it returns
  one entry for each diff, a chunk for each hunk, and every line of such a segment is
  still a change entry of its chunk, with the line's content and line numbers, whose
  type is what the lookup table gives for a name it does not hold: undefined (for the
  name of a member of \<^verbatim>\<open>Object.prototype\<close>, that member).
\<close>

theorem unknown_segment_type_passes_through:
  assumes "i < length diffs" and "d_hunks (diffs ! i) = Some hs" and "j < length hs"
      and "seg \<in> set (h_segments (hs ! j))" and "line \<in> set (s_lines seg)"
      and "s_type seg \<notin> {''ADDED'', ''CONTEXT'', ''REMOVED''}"
  shows "length (bitBucketServerDiffToGitStructuredDiff diffs) = length diffs
       \<and> (\<exists>cks. sd_chunks (bitBucketServerDiffToGitStructuredDiff diffs ! i) = Some cks
            \<and> length cks = length hs
            \<and> \<lparr>ch_type = (if s_type seg \<in> set objectPrototypeMembers
                           then Inherited (s_type seg) else Undefined),
                ch_content = l_line line, ch_sourceLine = l_source line,
                ch_destinationLine = l_destination line\<rparr> \<in> set (ck_changes (cks ! j)))"
proof -
  have c: "sd_chunks (bitBucketServerDiffToGitStructuredDiff diffs ! i) = Some (map toChunk hs)"
    using assms(1,2) by (simp add: structured_diff_unfold)
  have "toChange seg line \<in> set (ck_changes (toChunk (hs ! j)))"
    using assms(4,5) by (auto simp: toChunk_def)
  then have "\<lparr>ch_type = (if s_type seg \<in> set objectPrototypeMembers
                           then Inherited (s_type seg) else Undefined),
                ch_content = l_line line, ch_sourceLine = l_source line,
                ch_destinationLine = l_destination line\<rparr>
             \<in> set (ck_changes (map toChunk hs ! j))"
    using assms(3) getProperty_unknown[OF assms(6)] by (simp add: toChange_def)
  with c show ?thesis by (simp add: structured_diff_unfold)
qed

theorem unknown_segment_type_passes_through_witness:
  "length (bitBucketServerDiffToGitStructuredDiff [exDiff ''ADDED'' ''MOVED'']) = 1
   \<and> (\<exists>cks. sd_chunks (bitBucketServerDiffToGitStructuredDiff [exDiff ''ADDED'' ''MOVED''] ! 0)
              = Some cks
        \<and> length cks = 1
        \<and> \<lparr>ch_type = Undefined, ch_content = ''y'', ch_sourceLine = Some 3,
            ch_destinationLine = None\<rparr> \<in> set (ck_changes (cks ! 0)))"
  using unknown_segment_type_passes_through[of 0 "[exDiff ''ADDED'' ''MOVED'']"
      "the (d_hunks (exDiff ''ADDED'' ''MOVED''))" 0
      "\<lparr>s_type = ''MOVED'',
        s_lines = [\<lparr>l_line = ''y'', l_source = Some 3, l_destination = None\<rparr>]\<rparr>"
      "\<lparr>l_line = ''y'', l_source = Some 3, l_destination = None\<rparr>"]
  by (simp add: exDiff_def objectPrototypeMembers_def)

text \<open>
  Claim C10. For every platform diff entry whose hunks field is absent, the normalizer
  still emits an output entry (the output has one entry for each diff, in order, and
  nothing is raised), and that entry's chunks field is the absent value, not an empty
  array; an absent source gives an absent from and an absent destination an absent to.
\<close>

theorem absent_hunks_give_absent_chunks:
  "length (bitBucketServerDiffToGitStructuredDiff diffs) = length diffs
   \<and> (\<forall>i<length diffs.
        (d_hunks (diffs ! i) = None \<longrightarrow>
           sd_chunks (bitBucketServerDiffToGitStructuredDiff diffs ! i) = None
           \<and> sd_chunks (bitBucketServerDiffToGitStructuredDiff diffs ! i) \<noteq> Some [])
      \<and> (d_source (diffs ! i) = None \<longrightarrow>
           sd_from (bitBucketServerDiffToGitStructuredDiff diffs ! i) = None)
      \<and> (d_destination (diffs ! i) = None \<longrightarrow>
           sd_to (bitBucketServerDiffToGitStructuredDiff diffs ! i) = None))"
  by (simp add: structured_diff_unfold)

theorem absent_hunks_give_absent_chunks_witness:
  "bitBucketServerDiffToGitStructuredDiff [exAddedFile] =
     [\<lparr>sd_from = None, sd_to = None, sd_chunks = None\<rparr>]"
proof -
  let ?out = "bitBucketServerDiffToGitStructuredDiff [exAddedFile]"
  note t = absent_hunks_give_absent_chunks[of "[exAddedFile]"]
  have l: "length ?out = 1" using t by simp
  have "sd_chunks (?out ! 0) = None \<and> sd_from (?out ! 0) = None \<and> sd_to (?out ! 0) = None"
    using t by (simp add: exAddedFile_def)
  then have "?out ! 0 = \<lparr>sd_from = None, sd_to = None, sd_chunks = None\<rparr>"
    by (cases "?out ! 0") simp
  with l show ?thesis
    by (cases ?out) simp_all
qed


section \<open>Platform API client: requests, pagination, caching\<close>

lemma throwIfNotOk_ok: "ok res \<Longrightarrow> throwIfNotOk res = Inr ()"
  by (simp add: throwIfNotOk_def)

lemma throwIfNotOk_not_ok:
  "\<not> ok res \<Longrightarrow> throwIfNotOk res =
     Inl (Error (numberToString (status res) @ '' - '' @ statusText res @
          (if status res \<ge> 400 \<and> status res < 500
           then '' (Have you set DANGER_GITLAB_USERNAME and DANGER_GITLAB_PASSWORD or DANGER_GITLAB_TOKEN?)''
           else [])))"
  by (simp add: throwIfNotOk_def)

lemma get_fields:
  assumes "get fetch api path = (res, api')"
  shows "repoMetadata api' = repoMetadata api" "repoCredentials api' = repoCredentials api"
    "pr api' = pr api"
    "requests api' = requests api @ [host (repoCredentials api) @ ''/'' @ path]"
  using assms by (auto simp: get_def Let_def split: prod.splits)

lemma changesPath_get:
  assumes "get fetch api path = (res, api')"
  shows "changesPath api' c = changesPath api c" "changesUrl api' c = changesUrl api c"
  using get_fields[OF assms]
  by (simp_all add: changesPath_def changesUrl_def getPRBasePath_def)

lemma pagesServed_Cons:
  assumes "pagesServed fetch api cursor (p # ps) api'"
      and "get fetch api (changesPath api cursor) = (res, api1)"
  shows "ok res" "body res = p"
    "case cg_nextPageStart p of None \<Rightarrow> ps = [] \<and> api' = api1
     | Some n \<Rightarrow> pagesServed fetch api1 n ps api'"
  using assms by simp_all

lemma changesLoop_pages:
  "pagesServed fetch api cursor pages api' \<Longrightarrow>
   changesLoop fetch api cursor vals = Some (Inr (vals @ concat (map cg_values pages)), api')"
proof (induction pages arbitrary: api cursor vals)
  case Nil
  then show ?case by simp
next
  case (Cons p ps)
  obtain res api1 where g: "get fetch api (changesPath api cursor) = (res, api1)"
    by (cases "get fetch api (changesPath api cursor)")
  note s = pagesServed_Cons[OF Cons.prems g]
  show ?case
  proof (cases "cg_nextPageStart p")
    case None
    with s(3) have "ps = []" "api' = api1" by simp_all
    then show ?thesis
      by (subst changesLoop.simps) (simp add: g throwIfNotOk_ok[OF s(1)] s(2) None)
  next
    case (Some n)
    with s(3) have "pagesServed fetch api1 n ps api'" by simp
    from Cons.IH[OF this, of "vals @ cg_values p"] show ?thesis
      by (subst changesLoop.simps) (simp add: g throwIfNotOk_ok[OF s(1)] s(2) Some)
  qed
qed

lemma pagesServed_requests:
  "pagesServed fetch api cursor pages api' \<Longrightarrow>
   requests api' = requests api @
     map (changesUrl api) (cursor # map (\<lambda>p. the (cg_nextPageStart p)) (butlast pages))"
proof (induction pages arbitrary: api cursor)
  case Nil
  then show ?case by simp
next
  case (Cons p ps)
  obtain res api1 where g: "get fetch api (changesPath api cursor) = (res, api1)"
    by (cases "get fetch api (changesPath api cursor)")
  note s = pagesServed_Cons[OF Cons.prems g]
  have r1: "requests api1 = requests api @ [changesUrl api cursor]"
    using get_fields(4)[OF g] by (simp add: changesUrl_def)
  have same: "changesUrl api1 = changesUrl api"
    using changesPath_get(2)[OF g] by (rule ext)
  show ?case
  proof (cases "cg_nextPageStart p")
    case None
    with s(3) have "ps = []" "api' = api1" by simp_all
    then show ?thesis using r1 by simp
  next
    case (Some n)
    with s(3) have ps: "pagesServed fetch api1 n ps api'" by simp
    then have "ps \<noteq> []" by auto
    with Cons.IH[OF ps] show ?thesis
      by (simp add: r1 same Some)
  qed
qed

lemma pagesServed_shape:
  "pagesServed fetch api cursor pages api' \<Longrightarrow>
   pages \<noteq> [] \<and> cg_nextPageStart (last pages) = None \<and>
   (\<forall>p\<in>set (butlast pages). cg_nextPageStart p \<noteq> None)"
proof (induction pages arbitrary: api cursor)
  case Nil
  then show ?case by simp
next
  case (Cons p ps)
  obtain res api1 where g: "get fetch api (changesPath api cursor) = (res, api1)"
    by (cases "get fetch api (changesPath api cursor)")
  note s = pagesServed_Cons[OF Cons.prems g]
  show ?case
  proof (cases "cg_nextPageStart p")
    case None
    with s(3) show ?thesis by simp
  next
    case (Some n)
    with s(3) have ps: "pagesServed fetch api1 n ps api'" by simp
    from Cons.IH[OF ps] Some show ?thesis by auto
  qed
qed

text \<open>A loop that returns has met a failed response or a page without a next page.\<close>

lemma changesLoop_Some_names_last:
  assumes "changesLoop fetch api cursor vals = Some y"
  shows "\<exists>w u. \<not> ok (fst (fetch w u)) \<or> cg_nextPageStart (body (fst (fetch w u))) = None"
  using assms
proof (induction rule: changesLoop.raw_induct[rotated 1, consumes 1])
  case (1 loop fetch api nextPageStart vals y)
  obtain res api1 where g: "get fetch api (changesPath api nextPageStart) = (res, api1)"
    by (cases "get fetch api (changesPath api nextPageStart)")
  then have f: "res = fst (fetch (net api)
      (host (repoCredentials api) @ ''/'' @ changesPath api nextPageStart))"
    by (auto simp: get_def Let_def split: prod.splits)
  show ?case
  proof (cases "ok res")
    case False
    with f show ?thesis by blast
  next
    case True
    show ?thesis
    proof (cases "cg_nextPageStart (body res)")
      case None
      with f show ?thesis by blast
    next
      case (Some n)
      with 1(2) g True have "loop fetch api1 n (vals @ cg_values (body res)) = Some y"
        by (simp add: throwIfNotOk_ok)
      then show ?thesis by (rule 1(1))
    qed
  qed
qed

lemma changesLoop_never_returns:
  assumes "\<forall>w u. ok (fst (fetch w u)) \<and> cg_nextPageStart (body (fst (fetch w u))) \<noteq> None"
  shows "changesLoop fetch api cursor vals = None"
proof (cases "changesLoop fetch api cursor vals")
  case None
  then show ?thesis .
next
  case (Some y)
  from changesLoop_Some_names_last[OF Some] assms show ?thesis by blast
qed

text \<open>
  Claim C4. For every sequence of successful pages served to the loop,
  getPullRequestChanges starts the cursor at 0, requests each next page at the previous
  page's nextPageStart, appends the pages' values in page order and returns their
  concatenation, nothing dropped, doubled or reordered, having made exactly one request
  for each page; it stops at the page whose nextPageStart is null and at no page before
  it, and when every page names a next page it never returns.
\<close>

theorem changes_pagination:
  "(pagesServed fetch api 0 pages api' \<longrightarrow>
      getPullRequestChanges fetch api = Some (Inr (concat (map cg_values pages)), api')
    \<and> requests api' = requests api @
        map (changesUrl api) (0 # map (\<lambda>p. the (cg_nextPageStart p)) (butlast pages))
    \<and> length (requests api') = length (requests api) + length pages
    \<and> cg_nextPageStart (last pages) = None
    \<and> (\<forall>p\<in>set (butlast pages). cg_nextPageStart p \<noteq> None))
   \<and> ((\<forall>w u. ok (fst (fetch w u)) \<and> cg_nextPageStart (body (fst (fetch w u))) \<noteq> None) \<longrightarrow>
      getPullRequestChanges fetch api = None)"
proof (intro conjI impI)
  assume served: "pagesServed fetch api 0 pages api'"
  show "getPullRequestChanges fetch api = Some (Inr (concat (map cg_values pages)), api')"
    using changesLoop_pages[OF served, of "[]"] by (simp add: getPullRequestChanges_def)
  note b = pagesServed_requests[OF served]
  note c = pagesServed_shape[OF served]
  from b show "requests api' = requests api @
        map (changesUrl api) (0 # map (\<lambda>p. the (cg_nextPageStart p)) (butlast pages))" .
  from b c show "length (requests api') = length (requests api) + length pages"
    by simp
  from c show "cg_nextPageStart (last pages) = None" by blast
  from c show "\<forall>p\<in>set (butlast pages). cg_nextPageStart p \<noteq> None" by blast
next
  assume "\<forall>w u. ok (fst (fetch w u)) \<and> cg_nextPageStart (body (fst (fetch w u))) \<noteq> None"
  then show "getPullRequestChanges fetch api = None"
    unfolding getPullRequestChanges_def by (rule changesLoop_never_returns)
qed

lemma exPagesServed:
  "pagesServed exChangesFetch exApi 0 exPages
     (exApi\<lparr>requests := [''https://h//projects/g/r/merge_requests/7/changes?start=0'',
                          ''https://h//projects/g/r/merge_requests/7/changes?start=1'']\<rparr>)"
  by (simp add: exPages_def exApi_def exChangesFetch_def get_def changesPath_def
      getPRBasePath_def numberToString_examples ok_def Let_def)

lemma exEndless:
  "\<forall>w u. ok (fst (exEndlessFetch w u))
         \<and> cg_nextPageStart (body (fst (exEndlessFetch w u))) \<noteq> None"
  by (simp add: exEndlessFetch_def ok_def)

text \<open>
  The specification's example: the pages [a, b] with nextPageStart 1 and [c] with
  nextPageStart null give [a, b, c] after exactly two requests, for start=0 and start=1.
\<close>

theorem changes_pagination_witness:
  "getPullRequestChanges exChangesFetch exApi =
     Some (Inr [exChange ''ADD'' ''a'', exChange ''ADD'' ''b'', exChange ''ADD'' ''c''],
           exApi\<lparr>requests := [''https://h//projects/g/r/merge_requests/7/changes?start=0'',
                                ''https://h//projects/g/r/merge_requests/7/changes?start=1'']\<rparr>)
   \<and> length (requests (exApi\<lparr>requests :=
                 [''https://h//projects/g/r/merge_requests/7/changes?start=0'',
                  ''https://h//projects/g/r/merge_requests/7/changes?start=1'']\<rparr>))
       = length (requests exApi) + 2
   \<and> getPullRequestChanges exEndlessFetch exApi = None"
  using changes_pagination[THEN conjunct1, THEN mp, OF exPagesServed]
    changes_pagination[where fetch = exEndlessFetch and api = exApi,
      THEN conjunct2, THEN mp, OF exEndless]
  by (simp add: exPages_def)

lemma getPullRequestInfo_cached:
  "pr api = Some v \<Longrightarrow> truthy v \<Longrightarrow> getPullRequestInfo truthy fetch api = (Inr v, api)"
  by (simp add: getPullRequestInfo_def)

lemma repeatInfo_cached:
  "pr api = Some v \<Longrightarrow> truthy v \<Longrightarrow>
   repeatInfo truthy fetch n api = (replicate n (Inr v), api)"
  by (induction n) (simp_all add: getPullRequestInfo_cached)

lemma getPullRequestInfo_fetches:
  assumes "pr api = None \<or> (\<exists>v. pr api = Some v \<and> \<not> truthy v)"
      and "get fetch api (getPRBasePath api) = (res, api')"
  shows "getPullRequestInfo truthy fetch api =
     (case throwIfNotOk res of
        Inl e \<Rightarrow> (Inl e, api')
      | Inr _ \<Rightarrow> (Inr (body res), api'\<lparr>pr := Some (body res)\<rparr>))"
  using assms by (auto simp: getPullRequestInfo_def)

text \<open>
  Claim C8 says that at most one PR-metadata fetch occurs over the lifetime of a client
  instance. A fetch that fails stores nothing, so the next call fetches again: against a
  server that answers 500, two calls in a row make two requests and both raise.
\<close>

theorem pull_request_info_refetched_after_failure:
  "repeatInfo truthyString exFailingFetch 2 exApi =
     ([Inl (Error ''500 - Internal Server Error''), Inl (Error ''500 - Internal Server Error'')],
      exApi\<lparr>requests := [''https://h//projects/g/r/merge_requests/7'',
                           ''https://h//projects/g/r/merge_requests/7'']\<rparr>)"
  by (simp add: numeral_2_eq_2 getPullRequestInfo_def exApi_def exFailingFetch_def get_def
      getPRBasePath_def throwIfNotOk_def ok_def numberToString_examples)

text \<open>
  Claim C8 as the code has it, for calls made one after the other on one instance. A
  call made while pr is unset makes one request; when the response is successful it
  stores the deserialized PR metadata in pr and returns it, and, the metadata being a
  truthy value (as every object is), every later call, however many, returns the stored
  value, makes no request and changes nothing, so that at most one successful fetch
  occurs and the cached value never changes once set. Once pr holds a truthy value,
  calls return it without a request. A stored falsy value (null, false, 0, the empty
  string) does not count as cached: the next call makes a request again and stores its
  result. When the response is not successful, the call raises the HTTP error and pr
  stays unset.
\<close>

theorem pull_request_info_memoized:
  "(pr api = None \<and> get fetch api (getPRBasePath api) = (res, api') \<and> ok res \<longrightarrow>
      getPullRequestInfo truthy fetch api = (Inr (body res), api'\<lparr>pr := Some (body res)\<rparr>)
      \<and> requests api' = requests api @ [host (repoCredentials api) @ ''/'' @ getPRBasePath api]
      \<and> (truthy (body res) \<longrightarrow>
           repeatInfo truthy fetch n (api'\<lparr>pr := Some (body res)\<rparr>) =
             (replicate n (Inr (body res)), api'\<lparr>pr := Some (body res)\<rparr>)))
   \<and> (pr api = Some v \<and> truthy v \<longrightarrow>
        repeatInfo truthy fetch n api = (replicate n (Inr v), api))
   \<and> (pr api = Some v \<and> \<not> truthy v
        \<and> get fetch api (getPRBasePath api) = (res, api') \<and> ok res \<longrightarrow>
      getPullRequestInfo truthy fetch api = (Inr (body res), api'\<lparr>pr := Some (body res)\<rparr>)
      \<and> requests api' = requests api @ [host (repoCredentials api) @ ''/'' @ getPRBasePath api])
   \<and> (pr api = None \<and> get fetch api (getPRBasePath api) = (res, api') \<and> \<not> ok res \<longrightarrow>
      getPullRequestInfo truthy fetch api =
        (Inl (Error (numberToString (status res) @ '' - '' @ statusText res @
          (if status res \<ge> 400 \<and> status res < 500
           then '' (Have you set DANGER_GITLAB_USERNAME and DANGER_GITLAB_PASSWORD or DANGER_GITLAB_TOKEN?)''
           else []))), api')
      \<and> pr api' = None
      \<and> requests api' = requests api @ [host (repoCredentials api) @ ''/'' @ getPRBasePath api])"
proof (intro conjI impI)
  assume a: "pr api = None \<and> get fetch api (getPRBasePath api) = (res, api') \<and> ok res"
  then show "getPullRequestInfo truthy fetch api =
      (Inr (body res), api'\<lparr>pr := Some (body res)\<rparr>)"
    using getPullRequestInfo_fetches[of api truthy fetch res api']
    by (simp add: throwIfNotOk_ok)
  from a show "requests api' =
      requests api @ [host (repoCredentials api) @ ''/'' @ getPRBasePath api]"
    using get_fields(4) by blast
  assume "truthy (body res)"
  then show "repeatInfo truthy fetch n (api'\<lparr>pr := Some (body res)\<rparr>) =
          (replicate n (Inr (body res)), api'\<lparr>pr := Some (body res)\<rparr>)"
    by (intro repeatInfo_cached) simp_all
next
  assume "pr api = Some v \<and> truthy v"
  then show "repeatInfo truthy fetch n api = (replicate n (Inr v), api)"
    by (intro repeatInfo_cached) simp_all
next
  assume a: "pr api = Some v \<and> \<not> truthy v
        \<and> get fetch api (getPRBasePath api) = (res, api') \<and> ok res"
  then show "getPullRequestInfo truthy fetch api =
      (Inr (body res), api'\<lparr>pr := Some (body res)\<rparr>)"
    using getPullRequestInfo_fetches[of api truthy fetch res api']
    by (simp add: throwIfNotOk_ok)
  from a show "requests api' =
      requests api @ [host (repoCredentials api) @ ''/'' @ getPRBasePath api]"
    using get_fields(4) by blast
next
  assume a: "pr api = None \<and> get fetch api (getPRBasePath api) = (res, api') \<and> \<not> ok res"
  then show "getPullRequestInfo truthy fetch api =
        (Inl (Error (numberToString (status res) @ '' - '' @ statusText res @
          (if status res \<ge> 400 \<and> status res < 500
           then '' (Have you set DANGER_GITLAB_USERNAME and DANGER_GITLAB_PASSWORD or DANGER_GITLAB_TOKEN?)''
           else []))), api')"
    using getPullRequestInfo_fetches[of api truthy fetch res api']
    by (simp add: throwIfNotOk_not_ok)
  from a show "pr api' = None" using get_fields(3) by metis
  from a show "requests api' =
      requests api @ [host (repoCredentials api) @ ''/'' @ getPRBasePath api]"
    using get_fields(4) by blast
qed

text \<open>
  A successful fetch followed by three cached calls; a stored empty string, which is
  fetched again; and a failed fetch.
\<close>

theorem pull_request_info_memoized_witness:
  "getPullRequestInfo truthyString exInfoFetch exApi =
     (Inr ''merge request 7'',
      exApi\<lparr>pr := Some ''merge request 7'',
            requests := [''https://h//projects/g/r/merge_requests/7'']\<rparr>)
   \<and> repeatInfo truthyString exInfoFetch 3
        (exApi\<lparr>pr := Some ''merge request 7'',
              requests := [''https://h//projects/g/r/merge_requests/7'']\<rparr>) =
     ([Inr ''merge request 7'', Inr ''merge request 7'', Inr ''merge request 7''],
      exApi\<lparr>pr := Some ''merge request 7'',
            requests := [''https://h//projects/g/r/merge_requests/7'']\<rparr>)
   \<and> getPullRequestInfo truthyString exEmptyFetch (exApi\<lparr>pr := Some []\<rparr>) =
     (Inr [],
      exApi\<lparr>pr := Some [], requests := [''https://h//projects/g/r/merge_requests/7'']\<rparr>)
   \<and> getPullRequestInfo truthyString exFailingFetch exApi =
     (Inl (Error ''500 - Internal Server Error''),
      exApi\<lparr>requests := [''https://h//projects/g/r/merge_requests/7'']\<rparr>)"
proof -
  let ?u = "''https://h//projects/g/r/merge_requests/7''"
  let ?r1 = "\<lparr>status = 200, statusText = ''OK'', body = ''merge request 7''\<rparr>"
  let ?r2 = "\<lparr>status = 500, statusText = ''Internal Server Error'', body = []\<rparr>"
  let ?r3 = "\<lparr>status = 200, statusText = ''OK'', body = []\<rparr>"
  let ?a1 = "exApi\<lparr>requests := [?u]\<rparr>"
  let ?e0 = "exApi\<lparr>pr := Some []\<rparr>"
  let ?e1 = "exApi\<lparr>pr := Some [], requests := [?u]\<rparr>"
  have g1: "get exInfoFetch exApi (getPRBasePath exApi) = (?r1, ?a1)"
    by (simp add: get_def exInfoFetch_def exApi_def getPRBasePath_def)
  have g2: "get exFailingFetch exApi (getPRBasePath exApi) = (?r2, ?a1)"
    by (simp add: get_def exFailingFetch_def exApi_def getPRBasePath_def)
  have g3: "get exEmptyFetch ?e0 (getPRBasePath ?e0) = (?r3, ?e1)"
    by (simp add: get_def exEmptyFetch_def exApi_def getPRBasePath_def)
  have p: "pr exApi = None" by (simp add: exApi_def)
  have p3: "pr ?e0 = Some []" by simp
  have f3: "\<not> truthyString []" by (simp add: truthyString_def)
  have o1: "ok ?r1" by (simp add: ok_def)
  have o2: "\<not> ok ?r2" by (simp add: ok_def)
  have o3: "ok ?r3" by (simp add: ok_def)
  have t1: "truthyString (body ?r1)" by (simp add: truthyString_def)
  note ok_case = pull_request_info_memoized[where api = exApi and fetch = exInfoFetch
      and truthy = truthyString and n = 3 and v = "''x''" and api' = ?a1 and res = ?r1,
      THEN conjunct1, THEN mp, OF conjI[OF p conjI[OF g1 o1]]]
  note falsy_case = pull_request_info_memoized[where api = ?e0 and fetch = exEmptyFetch
      and truthy = truthyString and n = 0 and v = "[]" and api' = ?e1 and res = ?r3,
      THEN conjunct2, THEN conjunct2, THEN conjunct1, THEN mp,
      OF conjI[OF p3 conjI[OF f3 conjI[OF g3 o3]]]]
  note failed_case = pull_request_info_memoized[where api = exApi and fetch = exFailingFetch
      and truthy = truthyString and n = 0 and v = "''x''" and api' = ?a1 and res = ?r2,
      THEN conjunct2, THEN conjunct2, THEN conjunct2, THEN mp,
      OF conjI[OF p conjI[OF g2 o2]]]
  have a: "getPullRequestInfo truthyString exInfoFetch exApi =
       (Inr ''merge request 7'', exApi\<lparr>pr := Some ''merge request 7'', requests := [?u]\<rparr>)"
    using ok_case[THEN conjunct1] by (simp add: exApi_def)
  have a': "repeatInfo truthyString exInfoFetch 3
        (exApi\<lparr>pr := Some ''merge request 7'', requests := [?u]\<rparr>) =
      ([Inr ''merge request 7'', Inr ''merge request 7'', Inr ''merge request 7''],
       exApi\<lparr>pr := Some ''merge request 7'', requests := [?u]\<rparr>)"
    using ok_case[THEN conjunct2, THEN conjunct2, THEN mp, OF t1]
    by (simp add: exApi_def numeral_3_eq_3)
  have c: "getPullRequestInfo truthyString exEmptyFetch ?e0 = (Inr [], ?e1)"
    using falsy_case[THEN conjunct1] by (simp add: exApi_def)
  have b: "getPullRequestInfo truthyString exFailingFetch exApi =
     (Inl (Error ''500 - Internal Server Error''), exApi\<lparr>requests := [?u]\<rparr>)"
    using failed_case[THEN conjunct1] by (simp add: numberToString_examples)
  from a a' c b show ?thesis by blast
qed

text \<open>
  Claim C9. For every call of getFileContents, a response with status 404 makes the
  operation return the empty string without raising; every other response that is not
  successful makes it raise an HTTP error whose message carries the status and the
  status text (and, for a 4xx status, the credentials hint); a successful response makes
  it return the body text.
\<close>

theorem file_contents_404_is_empty:
  assumes "get fetch api
             (templateArg slug @ ''/'' @ ''raw/'' @ filePath @ ''?at='' @ templateArg refspec)
             = (res, api')"
  shows "(status res = 404 \<longrightarrow>
            getFileContents fetch api filePath slug refspec = (Inr [], api'))
       \<and> (status res \<noteq> 404 \<and> \<not> ok res \<longrightarrow>
            getFileContents fetch api filePath slug refspec =
              (Inl (Error (numberToString (status res) @ '' - '' @ statusText res @
                 (if status res \<ge> 400 \<and> status res < 500
                  then '' (Have you set DANGER_GITLAB_USERNAME and DANGER_GITLAB_PASSWORD or DANGER_GITLAB_TOKEN?)''
                  else []))), api'))
       \<and> (ok res \<longrightarrow>
            getFileContents fetch api filePath slug refspec = (Inr (body res), api'))"
  using assms
  by (auto simp: getFileContents_def Let_def throwIfNotOk_def ok_def)

theorem file_contents_404_is_empty_witness:
  "getFileContents exFileFetch exApi ''missing.md'' (Some ''g/r'') (Some ''main'') =
     (Inr [], exApi\<lparr>requests := [''https://h/g/r/raw/missing.md?at=main'']\<rparr>)
   \<and> getFileContents exFileFetch exApi ''secret.md'' (Some ''g/r'') (Some ''main'') =
     (Inl (Error ''403 - Forbidden (Have you set DANGER_GITLAB_USERNAME and DANGER_GITLAB_PASSWORD or DANGER_GITLAB_TOKEN?)''),
      exApi\<lparr>requests := [''https://h/g/r/raw/secret.md?at=main'']\<rparr>)
   \<and> getFileContents exFileFetch exApi ''README.md'' (Some ''g/r'') (Some ''main'') =
     (Inr ''# readme'', exApi\<lparr>requests := [''https://h/g/r/raw/README.md?at=main'']\<rparr>)"
proof -
  let ?slug = "Some ''g/r''" and ?ref = "Some ''main''"
  let ?r404 = "\<lparr>status = 404, statusText = ''Not Found'', body = ''no such file''\<rparr>"
  let ?r403 = "\<lparr>status = 403, statusText = ''Forbidden'', body = ''denied''\<rparr>"
  let ?r200 = "\<lparr>status = 200, statusText = ''OK'', body = ''# readme''\<rparr>"
  have g1: "get exFileFetch exApi
       (templateArg ?slug @ ''/'' @ ''raw/'' @ ''missing.md'' @ ''?at='' @ templateArg ?ref) =
       (?r404, exApi\<lparr>requests := [''https://h/g/r/raw/missing.md?at=main'']\<rparr>)"
    by (simp add: get_def exFileFetch_def exApi_def templateArg_def)
  have g2: "get exFileFetch exApi
       (templateArg ?slug @ ''/'' @ ''raw/'' @ ''secret.md'' @ ''?at='' @ templateArg ?ref) =
       (?r403, exApi\<lparr>requests := [''https://h/g/r/raw/secret.md?at=main'']\<rparr>)"
    by (simp add: get_def exFileFetch_def exApi_def templateArg_def)
  have g3: "get exFileFetch exApi
       (templateArg ?slug @ ''/'' @ ''raw/'' @ ''README.md'' @ ''?at='' @ templateArg ?ref) =
       (?r200, exApi\<lparr>requests := [''https://h/g/r/raw/README.md?at=main'']\<rparr>)"
    by (simp add: get_def exFileFetch_def exApi_def templateArg_def)
  have s1: "status ?r404 = 404" by simp
  have s2: "status ?r403 \<noteq> 404 \<and> \<not> ok ?r403" by (simp add: ok_def)
  have s3: "ok ?r200" by (simp add: ok_def)
  have a: "getFileContents exFileFetch exApi ''missing.md'' ?slug ?ref =
     (Inr [], exApi\<lparr>requests := [''https://h/g/r/raw/missing.md?at=main'']\<rparr>)"
    using file_contents_404_is_empty[OF g1, THEN conjunct1, THEN mp, OF s1] .
  have b: "getFileContents exFileFetch exApi ''secret.md'' ?slug ?ref =
     (Inl (Error ''403 - Forbidden (Have you set DANGER_GITLAB_USERNAME and DANGER_GITLAB_PASSWORD or DANGER_GITLAB_TOKEN?)''),
      exApi\<lparr>requests := [''https://h/g/r/raw/secret.md?at=main'']\<rparr>)"
    using file_contents_404_is_empty[OF g2, THEN conjunct2, THEN conjunct1, THEN mp, OF s2]
    by (simp add: numberToString_examples)
  have c: "getFileContents exFileFetch exApi ''README.md'' ?slug ?ref =
     (Inr ''# readme'', exApi\<lparr>requests := [''https://h/g/r/raw/README.md?at=main'']\<rparr>)"
    using file_contents_404_is_empty[OF g3, THEN conjunct2, THEN conjunct2, THEN mp, OF s3]
    by simp
  from a b c show ?thesis by blast
qed

end
